theory Spec2Isabelle
  imports Complex_Main "HOL-Library.Char_ord" "HOL-Library.List_Lexorder" "HOL-Library.Multiset"
begin

section \<open>Python exceptions as values\<close>

text \<open>
  Every \<^verbatim>\<open>raise\<close>, failed \<^verbatim>\<open>assert\<close> and failing library call of
  \<^verbatim>\<open>analyze_udf_overhead_bench.py\<close> is a value \<open>Inl e\<close> of the result type
  \<open>error + 'a\<close>; \<open>and_then\<close> is the sequencing of two statements, the second one
  skipped when the first raised.
\<close>

datatype error =
  ValueError | AssertionError | KeyError | TypeError | OverflowError | ZeroDivisionError
  | NoRowsReturned

definition and_then :: "error + 'a \<Rightarrow> ('a \<Rightarrow> error + 'b) \<Rightarrow> error + 'b" where
  "and_then r f = (case r of Inl e \<Rightarrow> Inl e | Inr v \<Rightarrow> f v)"

section \<open>The metric enumeration\<close>

datatype Metric = cycles | instructions

text \<open>
  \<^verbatim>\<open>Metric.valgrind_name\<close>: the \<^verbatim>\<open>match\<close> statement compares \<open>self\<close> with the two
  members in turn and raises \<^verbatim>\<open>ValueError\<close> in the wildcard case.
\<close>

definition valgrind_name :: "Metric \<Rightarrow> error + string" where
  "valgrind_name self =
     (if self = cycles then Inr ''EstimatedCycles''
      else if self = instructions then Inr ''Ir''
      else Inl ValueError)"

section \<open>Decoded JSON lines\<close>

text \<open>
  \<^verbatim>\<open>json.loads(line)\<close> is the standard library's decoder; the model starts from its
  result, one decoded document per line of the file. An object is the association list
  of the \<^verbatim>\<open>dict\<close> the decoder built, read with \<open>map_of\<close>. Python's unbounded
  \<^verbatim>\<open>int\<close> is \<open>int\<close>, a \<^verbatim>\<open>float\<close> is idealised as a \<open>real\<close>. A string is
  the list of its characters; the field names and the patterns of the program are
  ASCII.
\<close>

datatype json =
  JNull | JBool bool | JInt int | JFloat real | JString string
  | JArray "json list" | JObject "(string \<times> json) list"

text \<open>
  \<^verbatim>\<open>data[key]\<close> with a string key: a \<^verbatim>\<open>dict\<close> gives the value or raises
  \<^verbatim>\<open>KeyError\<close>; every other decoded value raises \<^verbatim>\<open>TypeError\<close>.
\<close>

fun subscript :: "json \<Rightarrow> string \<Rightarrow> error + json" where
  "subscript (JObject kvs) k = (case map_of kvs k of None \<Rightarrow> Inl KeyError | Some v \<Rightarrow> Inr v)"
| "subscript _ k = Inl TypeError"

text \<open>
  \<^verbatim>\<open>[profile] = data["profiles"]\<close>: unpacking an iterable of exactly one element. A
  list gives its element, a \<^verbatim>\<open>dict\<close> its key, a string its character; any other
  length raises \<^verbatim>\<open>ValueError\<close>, and a value that is not iterable raises
  \<^verbatim>\<open>TypeError\<close>.
\<close>

fun unpack_single :: "json \<Rightarrow> error + json" where
  "unpack_single (JArray [p]) = Inr p"
| "unpack_single (JArray _) = Inl ValueError"
| "unpack_single (JObject [(k, _)]) = Inr (JString k)"
| "unpack_single (JObject _) = Inl ValueError"
| "unpack_single (JString [c]) = Inr (JString [c])"
| "unpack_single (JString _) = Inl ValueError"
| "unpack_single _ = Inl TypeError"

section \<open>The two regular expressions\<close>

text \<open>The character classes \<^verbatim>\<open>[a-z]\<close> and \<^verbatim>\<open>[0-9]\<close>.\<close>

definition is_lower :: "char \<Rightarrow> bool" where
  "is_lower c = (c \<in> set ''abcdefghijklmnopqrstuvwxyz'')"

definition is_digit :: "char \<Rightarrow> bool" where
  "is_digit c = (c \<in> set ''0123456789'')"

text \<open>Matching a literal at the start of a string: the rest of the string, if it is there.\<close>

fun strip_prefix :: "string \<Rightarrow> string \<Rightarrow> string option" where
  "strip_prefix [] s = Some s"
| "strip_prefix (p # ps) [] = None"
| "strip_prefix (p # ps) (c # cs) = (if p = c then strip_prefix ps cs else None)"

text \<open>
  \<^verbatim>\<open>re.compile("bench_(?P<mode>[a-z]+)").match(s)\<close>: \<^verbatim>\<open>match\<close> anchors at the start
  of \<open>s\<close> only; the greedy \<^verbatim>\<open>[a-z]+\<close> takes the longest run of lower-case letters and
  needs at least one. The result is the group \<^verbatim>\<open>mode\<close>, or \<open>None\<close> as in Python.
\<close>

definition fn_re_match :: "string \<Rightarrow> string option" where
  "fn_re_match s =
     (case strip_prefix ''bench_'' s of
        None \<Rightarrow> None
      | Some r \<Rightarrow> (let m = takeWhile is_lower r in if m = [] then None else Some m))"

text \<open>
  \<^verbatim>\<open>re.compile("batchsize_(?P<batchsize>[0-9]+)_batches_(?P<batches>[0-9]+)").match(s)\<close>.
  The first digit run is followed by the literal \<^verbatim>\<open>_batches_\<close>, which starts with no
  digit, so backtracking into a shorter run never helps and the greedy run decides.
  The result is the pair of groups.
\<close>

definition id_re_match :: "string \<Rightarrow> (string \<times> string) option" where
  "id_re_match s =
     (case strip_prefix ''batchsize_'' s of
        None \<Rightarrow> None
      | Some r \<Rightarrow>
          (let d1 = takeWhile is_digit r in
           if d1 = [] then None
           else (case strip_prefix ''_batches_'' (dropWhile is_digit r) of
                   None \<Rightarrow> None
                 | Some r2 \<Rightarrow>
                     (let d2 = takeWhile is_digit r2 in
                      if d2 = [] then None else Some (d1, d2)))))"

text \<open>\<^verbatim>\<open>int(s)\<close> on a string of decimal digits (leading zeros allowed).\<close>

definition digit_val :: "char \<Rightarrow> int" where
  "digit_val c = int (of_char c) - 48"

definition int_of_digits :: "string \<Rightarrow> int" where
  "int_of_digits ds = foldl (\<lambda>acc c. 10 * acc + digit_val c) 0 ds"

section \<open>Observations and \<^verbatim>\<open>parse_data\<close>\<close>

text \<open>
  Every data frame of the program has a \<^verbatim>\<open>mode\<close> column; a frame is the list of its
  rows. An observation is a row of the frame \<^verbatim>\<open>parse_data\<close> returns. Its cost is the
  decoded value found in the line, which the parser stores as it is.
\<close>

record moded =
  mode :: string

record observation = moded +
  batchsize :: int
  batches :: int
  cost :: json

text \<open>
  \<^verbatim>\<open>fn_re.match(x)\<close> and \<^verbatim>\<open>id_re.match(x)\<close> raise \<^verbatim>\<open>TypeError\<close> when \<open>x\<close> is not a
  string; \<^verbatim>\<open>assert fn_parsed\<close> raises \<^verbatim>\<open>AssertionError\<close> when there is no match.
\<close>

definition match_asserted :: "(string \<Rightarrow> 'a option) \<Rightarrow> json \<Rightarrow> error + 'a" where
  "match_asserted re x =
     (case x of
        JString s \<Rightarrow> (case re s of None \<Rightarrow> Inl AssertionError | Some g \<Rightarrow> Inr g)
      | _ \<Rightarrow> Inl TypeError)"

text \<open>
  \<^verbatim>\<open>profile["summaries"]["total"]["summary"]["Callgrind"][valgrind_metric]["metrics"]["Left"]["Int"]\<close>:
  a chain of subscripts, left to right.
\<close>

fun subscripts :: "json \<Rightarrow> string list \<Rightarrow> error + json" where
  "subscripts v [] = Inr v"
| "subscripts v (k # ks) = and_then (subscript v k) (\<lambda>w. subscripts w ks)"

definition cost_path :: "string \<Rightarrow> string list" where
  "cost_path valgrind_metric =
     [''summaries'', ''total'', ''summary'', ''Callgrind'', valgrind_metric,
      ''metrics'', ''Left'', ''Int'']"

text \<open>The body of the loop over the lines, for one decoded line.\<close>

definition parse_line :: "string \<Rightarrow> json \<Rightarrow> error + observation" where
  "parse_line valgrind_metric data =
     and_then (subscript data ''function_name'') (\<lambda>fname.
     and_then (match_asserted fn_re_match fname) (\<lambda>m.
     and_then (subscript data ''id'') (\<lambda>ident.
     and_then (match_asserted id_re_match ident) (\<lambda>(d1, d2).
     and_then (subscript data ''profiles'') (\<lambda>profiles.
     and_then (unpack_single profiles) (\<lambda>profile.
     and_then (subscripts profile (cost_path valgrind_metric)) (\<lambda>c.
       Inr \<lparr>mode = m, batchsize = int_of_digits d1, batches = int_of_digits d2,
            cost = c\<rparr>)))))))"

text \<open>
  The loop: the first line that raises ends the parse. The result is the rows of the
  four lists that \<^verbatim>\<open>parse_data\<close> hands to \<^verbatim>\<open>pl.DataFrame\<close>. Building the frame,
  where the library settles a type for each column and raises on values that fit
  none, and the interpreter's limit on the length of a digit string given to
  \<^verbatim>\<open>int\<close> are no part of the model: what is proved of \<^verbatim>\<open>parse_data\<close> is proved of
  the rows it has collected when it returns.
\<close>

fun parse_lines :: "string \<Rightarrow> json list \<Rightarrow> observation list \<Rightarrow> error + observation list" where
  "parse_lines vm [] acc = Inr acc"
| "parse_lines vm (data # rest) acc =
     and_then (parse_line vm data) (\<lambda>ob. parse_lines vm rest (acc @ [ob]))"

definition parse_data :: "json list \<Rightarrow> Metric \<Rightarrow> error + observation list" where
  "parse_data file metric =
     and_then (valgrind_name metric) (\<lambda>valgrind_metric. parse_lines valgrind_metric file [])"

section \<open>The regression\<close>

text \<open>
  The frame \<^verbatim>\<open>regression\<close> receives has the columns \<^verbatim>\<open>batchsize\<close> and \<^verbatim>\<open>batches\<close>
  of type \<^verbatim>\<open>Int64\<close>, the type the frame constructor gives to Python integers below
  \<open>2 ^ 63\<close>. A product of two such columns is computed in 64 bits and wraps around
  without an error: \<open>wrap_int64\<close> is the two's-complement value of an exact result.
\<close>

definition wrap_int64 :: "int \<Rightarrow> int" where
  "wrap_int64 x = (x + 2 ^ 63) mod 2 ^ 64 - 2 ^ 63"

text \<open>
  \<^verbatim>\<open>df.with_columns((pl.col("batchsize") * pl.col("batches")).alias("totalrows"))\<close>:
  the frame with one more column.
\<close>

record observation_totalrows = observation +
  totalrows :: int

definition with_totalrows :: "observation list \<Rightarrow> observation_totalrows list" where
  "with_totalrows df =
     map (\<lambda>ob. \<lparr>mode = mode ob, batchsize = batchsize ob, batches = batches ob,
                 cost = cost ob, totalrows = wrap_int64 (batchsize ob * batches ob)\<rparr>) df"

text \<open>
  A \<^verbatim>\<open>float64\<close> is a finite number, an infinity or a NaN. (The sign of a zero is
  not kept.)
\<close>

datatype float64 = Finite real | PosInf | NegInf | NaN

text \<open>
  The calls into numpy and scikit-learn are parameters of the model, since the
  libraries are no part of the repository. Each can be given any behaviour, and the
  calls that validate their input can raise:
  \<^item> \<open>np_float64 n\<close> is the \<^verbatim>\<open>float64\<close> that the integer \<open>n\<close> of the \<^verbatim>\<open>int64\<close> array
    \<^verbatim>\<open>to_numpy()\<close> becomes when \<^verbatim>\<open>np.hstack\<close> joins it with the column of ones (a
    rounded value above \<open>2 ^ 53\<close>);
  \<^item> \<open>scaler_fit_transform X\<close> is \<^verbatim>\<open>StandardScaler(with_mean=False).fit_transform(X)\<close>
    together with the fitted \<^verbatim>\<open>scaler.scale_\<close>;
  \<^item> \<open>linreg_fit X y\<close> is \<^verbatim>\<open>LinearRegression(positive=True, fit_intercept=False).fit(X, y)\<close>,
    read as \<^verbatim>\<open>(reg.coef_, reg.intercept_)\<close>; it raises for a target \<open>y\<close> that is not
    numeric;
  \<^item> \<open>np_divide c s\<close> is one component of the \<^verbatim>\<open>float64\<close> division
    \<^verbatim>\<open>reg.coef_ / scaler.scale_\<close>, rounded as the machine rounds it; it raises nothing
    and gives an infinity or a NaN where the quotient is none;
  \<^item> \<open>linreg_score reg X y\<close> is \<^verbatim>\<open>reg.score(X, y)\<close> on two or more samples.

  The matrix \<open>X\<close> has three columns by construction, so a row of it, \<^verbatim>\<open>coef_\<close> and
  \<^verbatim>\<open>scale_\<close> are triples; the libraries return finite numbers in them.
\<close>

type_synonym vec3 = "real \<times> real \<times> real"

record libraries =
  np_float64 :: "int \<Rightarrow> real"
  scaler_fit_transform :: "vec3 list \<Rightarrow> error + vec3 list \<times> vec3"
  linreg_fit :: "vec3 list \<Rightarrow> json list \<Rightarrow> error + vec3 \<times> real"
  np_divide :: "real \<Rightarrow> real \<Rightarrow> float64"
  linreg_score :: "vec3 \<times> real \<Rightarrow> vec3 list \<Rightarrow> json list \<Rightarrow> error + float64"

text \<open>A row of the cost-model frame \<^verbatim>\<open>regression\<close> returns.\<close>

record cost_model = moded +
  cost_row :: int
  cost_call :: int
  cost_cached :: int
  score :: float64

text \<open>
  \<^verbatim>\<open>X = df_sub.select("totalrows", "batches").to_numpy()\<close> followed by
  \<^verbatim>\<open>np.hstack([X, np.ones((X.shape[0], 1))])\<close>: one row
  \<open>(totalrows, batches, 1)\<close> per observation.
\<close>

definition design_matrix :: "libraries \<Rightarrow> observation_totalrows list \<Rightarrow> vec3 list" where
  "design_matrix sk df_sub =
     map (\<lambda>ob. (np_float64 sk (totalrows ob), np_float64 sk (batches ob), 1)) df_sub"

text \<open>
  \<^verbatim>\<open>int(x)\<close> on a float truncates towards zero; it raises \<^verbatim>\<open>ValueError\<close> for a NaN
  and \<^verbatim>\<open>OverflowError\<close> for an infinity.
\<close>

definition trunc :: "real \<Rightarrow> int" where
  "trunc v = (if 0 \<le> v then \<lfloor>v\<rfloor> else \<lceil>v\<rceil>)"

definition py_int :: "float64 \<Rightarrow> error + int" where
  "py_int x =
     (case x of
        Finite v \<Rightarrow> Inr (trunc v)
      | NaN \<Rightarrow> Inl ValueError
      | _ \<Rightarrow> Inl OverflowError)"

text \<open>
  \<^verbatim>\<open>reg.score(X, y)\<close> is the coefficient of determination of the prediction. The
  library documents that it is not defined for fewer than two samples: it warns and
  returns a NaN.
\<close>

definition reg_score :: "libraries \<Rightarrow> vec3 \<times> real \<Rightarrow> vec3 list \<Rightarrow> json list \<Rightarrow> error + float64" where
  "reg_score sk reg X y = (if length y < 2 then Inr NaN else linreg_score sk reg X y)"

text \<open>The body of the loop over the modes, for the mode \<open>m\<close>.\<close>

definition regress_mode :: "libraries \<Rightarrow> observation_totalrows list \<Rightarrow> string \<Rightarrow> error + cost_model" where
  "regress_mode sk df m =
     (let df_sub = filter (\<lambda>ob. mode ob = m) df;
          X = design_matrix sk df_sub;
          y = map cost df_sub
      in and_then (scaler_fit_transform sk X) (\<lambda>(Xs, s0, s1, s2).
         and_then (linreg_fit sk Xs y) (\<lambda>((c0, c1, c2), intercept).
           if intercept \<noteq> 0 then Inl AssertionError
           else
             and_then (py_int (np_divide sk c0 s0)) (\<lambda>actual_coef0.
             and_then (py_int (np_divide sk c1 s1)) (\<lambda>actual_coef1.
             and_then (py_int (np_divide sk c2 s2)) (\<lambda>actual_intercept.
             and_then (reg_score sk ((c0, c1, c2), intercept) Xs y) (\<lambda>sc.
               Inr \<lparr>mode = m, cost_row = actual_coef0, cost_call = actual_coef1,
                    cost_cached = actual_intercept, score = sc\<rparr>)))))))"

fun regression_loop ::
  "libraries \<Rightarrow> observation_totalrows list \<Rightarrow> string list \<Rightarrow> cost_model list \<Rightarrow> error + cost_model list" where
  "regression_loop sk df [] acc = Inr acc"
| "regression_loop sk df (m # ms) acc =
     and_then (regress_mode sk df m) (\<lambda>r. regression_loop sk df ms (acc @ [r]))"

text \<open>
  \<^verbatim>\<open>sorted(df["mode"].unique())\<close> is the sorted list of the distinct modes;
  \<^verbatim>\<open>.sort("cost_row")\<close> sorts the rows by ascending \<^verbatim>\<open>cost_row\<close>. (The library
  leaves the order of rows with equal keys open; the model takes the stable one.)
  The rows are those of the five lists the loop has filled; building the frame from
  them, which raises for an integer of more than 64 bits, is no part of the model.
\<close>

definition regression :: "libraries \<Rightarrow> observation list \<Rightarrow> error + cost_model list" where
  "regression sk df0 =
     (let df = with_totalrows df0 in
      and_then (regression_loop sk df (sort (remdups (map mode df))) [])
        (\<lambda>rows. Inr (sort_key cost_row rows)))"

section \<open>Deltas between the cost models\<close>

text \<open>
  \<^verbatim>\<open>df.columns\<close> of the cost-model frame, and \<^verbatim>\<open>col.startswith(p)\<close>.
\<close>

definition cost_model_columns :: "string list" where
  "cost_model_columns = [''mode'', ''cost_row'', ''cost_call'', ''cost_cached'', ''score'']"

definition startswith :: "string \<Rightarrow> string \<Rightarrow> bool" where
  "startswith s p = (take (length p) s = p)"

text \<open>
  \<^verbatim>\<open>row[col]\<close> on the named row of a cost model, for the integer columns that
  \<^verbatim>\<open>op\<close> is applied to.
\<close>

definition row_get :: "cost_model \<Rightarrow> string \<Rightarrow> error + int" where
  "row_get row col =
     (case map_of [(''cost_row'', cost_row row), (''cost_call'', cost_call row),
                   (''cost_cached'', cost_cached row)] col of
        None \<Rightarrow> Inl KeyError
      | Some v \<Rightarrow> Inr v)"

text \<open>
  \<^verbatim>\<open>df["mode"].unique(maintain_order=True)\<close>: the distinct values in the order of
  their first occurrence.
\<close>

fun unique_maintain_order :: "'a list \<Rightarrow> 'a list \<Rightarrow> 'a list" where
  "unique_maintain_order seen [] = []"
| "unique_maintain_order seen (x # xs) =
     (if x \<in> set seen then unique_maintain_order seen xs
      else x # unique_maintain_order (x # seen) xs)"

text \<open>
  \<^verbatim>\<open>df.filter(pl.col("mode") == m).row(0, named=True)\<close>: the first row of that mode;
  the library raises when the filtered frame has no row.
\<close>

definition row0 :: "cost_model list \<Rightarrow> string \<Rightarrow> error + cost_model" where
  "row0 df m = (case filter (\<lambda>r. mode r = m) df of [] \<Rightarrow> Inl NoRowsReturned | r # _ \<Rightarrow> Inr r)"

text \<open>
  A row of the frame \<^verbatim>\<open>calc_delta\<close> returns: \<^verbatim>\<open>mode\<close>, \<^verbatim>\<open>baseline\<close>, and under
  \<open>deltas\<close> the entry of each list of the dictionary \<^verbatim>\<open>deltas\<close>, by column name.
\<close>

record 'a delta = moded +
  baseline :: string
  deltas :: "(string \<times> 'a) list"

text \<open>
  \<^verbatim>\<open>for col, array in deltas.items(): array.append(op(row1[col], row2[col]))\<close>; the
  callable \<open>op\<close> may raise.
\<close>

fun append_deltas ::
  "(int \<Rightarrow> int \<Rightarrow> error + 'a) \<Rightarrow> cost_model \<Rightarrow> cost_model \<Rightarrow> string list \<Rightarrow> error + (string \<times> 'a) list" where
  "append_deltas op row1 row2 [] = Inr []"
| "append_deltas op row1 row2 (col # cols) =
     and_then (row_get row1 col) (\<lambda>a.
     and_then (row_get row2 col) (\<lambda>b.
     and_then (op a b) (\<lambda>v.
     and_then (append_deltas op row1 row2 cols) (\<lambda>rest. Inr ((col, v) # rest)))))"

text \<open>The inner loop \<^verbatim>\<open>for m1 in modes\<close>, with \<open>m2\<close> and \<open>row2\<close> fixed.\<close>

fun calc_delta_inner ::
  "(int \<Rightarrow> int \<Rightarrow> error + 'a) \<Rightarrow> cost_model list \<Rightarrow> string list \<Rightarrow> string \<Rightarrow> cost_model
     \<Rightarrow> string list \<Rightarrow> 'a delta list \<Rightarrow> error + 'a delta list" where
  "calc_delta_inner op df cols m2 row2 [] acc = Inr acc"
| "calc_delta_inner op df cols m2 row2 (m1 # ms) acc =
     and_then (row0 df m1) (\<lambda>row1.
       if cost_row row1 \<ge> cost_row row2 then calc_delta_inner op df cols m2 row2 ms acc
       else and_then (append_deltas op row1 row2 cols) (\<lambda>d.
              calc_delta_inner op df cols m2 row2 ms
                (acc @ [\<lparr>mode = m2, baseline = m1, deltas = d\<rparr>])))"

text \<open>The outer loop \<^verbatim>\<open>for m2 in modes\<close>.\<close>

fun calc_delta_outer ::
  "(int \<Rightarrow> int \<Rightarrow> error + 'a) \<Rightarrow> cost_model list \<Rightarrow> string list \<Rightarrow> string list
     \<Rightarrow> string list \<Rightarrow> 'a delta list \<Rightarrow> error + 'a delta list" where
  "calc_delta_outer op df cols modes [] acc = Inr acc"
| "calc_delta_outer op df cols modes (m2 # ms) acc =
     and_then (row0 df m2) (\<lambda>row2.
     and_then (calc_delta_inner op df cols m2 row2 modes acc) (\<lambda>acc'.
       calc_delta_outer op df cols modes ms acc'))"

definition calc_delta :: "cost_model list \<Rightarrow> (int \<Rightarrow> int \<Rightarrow> error + 'a) \<Rightarrow> error + 'a delta list" where
  "calc_delta df op =
     (let cols = filter (\<lambda>col. startswith col ''cost_'') cost_model_columns;
          modes = unique_maintain_order [] (map mode df)
      in calc_delta_outer op df cols modes modes [])"

section \<open>The three delta operations of \<^verbatim>\<open>main\<close>\<close>

text \<open>
  \<^verbatim>\<open>max(1, x)\<close> returns its first argument unless the second is greater; \<^verbatim>\<open>x / y\<close>
  raises \<^verbatim>\<open>ZeroDivisionError\<close> for a zero divisor; \<^verbatim>\<open>float(a)\<close> of an integer is its
  value as a real.
\<close>

definition py_max :: "real \<Rightarrow> real \<Rightarrow> real" where
  "py_max x y = (if y > x then y else x)"

definition py_truediv :: "real \<Rightarrow> real \<Rightarrow> error + real" where
  "py_truediv x y = (if y = 0 then Inl ZeroDivisionError else Inr (x / y))"

text \<open>\<^verbatim>\<open>lambda a, b: b - a\<close>\<close>

definition delta_abs :: "int \<Rightarrow> int \<Rightarrow> error + int" where
  "delta_abs a b = Inr (b - a)"

text \<open>\<^verbatim>\<open>lambda a, b: (float(b) - float(a)) / max(1, float(a))\<close>\<close>

definition delta_rel1 :: "int \<Rightarrow> int \<Rightarrow> error + real" where
  "delta_rel1 a b = py_truediv (real_of_int b - real_of_int a) (py_max 1 (real_of_int a))"

text \<open>\<^verbatim>\<open>lambda a, b: float(b) / max(1, float(a))\<close>\<close>

definition delta_rel2 :: "int \<Rightarrow> int \<Rightarrow> error + real" where
  "delta_rel2 a b = py_truediv (real_of_int b) (py_max 1 (real_of_int a))"

section \<open>Predicates the theorems are stated with\<close>

text \<open>
  What the program relies on from the libraries, as they document it, whenever a call
  returns: \<^verbatim>\<open>StandardScaler\<close> reports a positive \<^verbatim>\<open>scale_\<close> for every column (a
  column of zero deviation is given the scale 1), \<^verbatim>\<open>positive=True\<close> makes every
  coefficient non-negative, and the \<^verbatim>\<open>float64\<close> quotient of a non-negative by a
  positive number is a non-negative number or the positive infinity.
\<close>

definition library_contract :: "libraries \<Rightarrow> bool" where
  "library_contract sk \<longleftrightarrow>
     (\<forall>X Xs s0 s1 s2. scaler_fit_transform sk X = Inr (Xs, s0, s1, s2)
        \<longrightarrow> 0 < s0 \<and> 0 < s1 \<and> 0 < s2)
     \<and> (\<forall>X y c0 c1 c2 i. linreg_fit sk X y = Inr ((c0, c1, c2), i)
          \<longrightarrow> 0 \<le> c0 \<and> 0 \<le> c1 \<and> 0 \<le> c2)
     \<and> (\<forall>c s. 0 \<le> c \<and> 0 < s
          \<longrightarrow> np_divide sk c s = PosInf \<or> (\<exists>q. 0 \<le> q \<and> np_divide sk c s = Finite q))"



text \<open>A score as the data model describes it: a number between 0 and 1.\<close>

definition in_unit_interval :: "float64 \<Rightarrow> bool" where
  "in_unit_interval x = (case x of Finite v \<Rightarrow> 0 \<le> v \<and> v \<le> 1 | _ \<Rightarrow> False)"

text \<open>The keys of the dictionary \<^verbatim>\<open>deltas\<close>.\<close>

definition cost_columns :: "string list" where
  "cost_columns = filter (\<lambda>col. startswith col ''cost_'') cost_model_columns"

text \<open>
  \<open>has_baseline df m2 m1\<close>: both modes have a row in \<open>df\<close>, and the \<^verbatim>\<open>cost_row\<close> of
  \<open>m1\<close> is strictly lower than that of \<open>m2\<close> (the first row of a mode counts).
\<close>

definition has_baseline :: "cost_model list \<Rightarrow> string \<Rightarrow> string \<Rightarrow> bool" where
  "has_baseline df m2 m1 \<longleftrightarrow>
     (\<exists>row1 row2. List.find (\<lambda>r. mode r = m1) df = Some row1
        \<and> List.find (\<lambda>r. mode r = m2) df = Some row2 \<and> cost_row row1 < cost_row row2)"

text \<open>\<open>emitted op df cols m2 m1 d\<close>: \<open>d\<close> is the delta row of the pair of \<open>m1\<close> and \<open>m2\<close>.\<close>

definition emitted :: "(int \<Rightarrow> int \<Rightarrow> error + 'a) \<Rightarrow> cost_model list \<Rightarrow> string list \<Rightarrow> string \<Rightarrow> string \<Rightarrow> 'a delta \<Rightarrow> bool" where
  "emitted op df cols m2 m1 d \<longleftrightarrow>
     (\<exists>row1 row2 x. List.find (\<lambda>r. mode r = m1) df = Some row1
        \<and> List.find (\<lambda>r. mode r = m2) df = Some row2
        \<and> cost_row row1 < cost_row row2
        \<and> append_deltas op row1 row2 cols = Inr x
        \<and> d = \<lparr>mode = m2, baseline = m1, deltas = x\<rparr>)"




text \<open>A cost as the data model describes it: a number that is not negative.\<close>

definition nonneg_numeric :: "json \<Rightarrow> bool" where
  "nonneg_numeric c = (case c of JInt n \<Rightarrow> 0 \<le> n | JFloat x \<Rightarrow> 0 \<le> x | _ \<Rightarrow> False)"

section \<open>Sample inputs\<close>

text \<open>
  A line of the profile dump, with its function name, its id, the name of the metric
  and the metric's value.
\<close>

definition bench_line :: "string \<Rightarrow> string \<Rightarrow> string \<Rightarrow> json \<Rightarrow> json" where
  "bench_line fname ident valgrind_metric c =
     JObject
       [(''function_name'', JString fname),
        (''id'', JString ident),
        (''profiles'',
         JArray
           [JObject [(''summaries'',
             JObject [(''total'',
               JObject [(''summary'',
                 JObject [(''Callgrind'',
                   JObject [(valgrind_metric,
                     JObject [(''metrics'',
                       JObject [(''Left'',
                         JObject [(''Int'', c)])])])])])])])]])]"




text \<open>
  A stand-in for the libraries that meets \<open>library_contract\<close>: its division is exact,
  which is the \<^verbatim>\<open>float64\<close> result on the quotients of the samples, and its fit
  raises for a cost that is no number, as the validation of the library does. With it,
  observations of two modes and the cost models \<^verbatim>\<open>regression\<close> computes from them.
  The mode \<^verbatim>\<open>wasm\<close> has one observation only.
\<close>

definition is_number :: "json \<Rightarrow> bool" where
  "is_number c = (case c of JInt n \<Rightarrow> True | JFloat x \<Rightarrow> True | _ \<Rightarrow> False)"

definition sample_libraries :: libraries where
  "sample_libraries =
     \<lparr>np_float64 = real_of_int,
      scaler_fit_transform = (\<lambda>X. Inr (map (\<lambda>(a, b, c). (a / 2, b, c)) X, (2, 1, 1))),
      linreg_fit = (\<lambda>X y. if list_all is_number y then Inr ((5 * real (length X), 3, 7 / 2), 0)
                         else Inl ValueError),
      np_divide = (\<lambda>c s. if s = 0 then NaN else Finite (c / s)),
      linreg_score = (\<lambda>reg X y. Inr (Finite 1))\<rparr>"

definition sample_observations :: "observation list" where
  "sample_observations =
     [\<lparr>mode = ''native'', batchsize = 1, batches = 2, cost = JInt 30\<rparr>,
      \<lparr>mode = ''wasm'', batchsize = 1, batches = 2, cost = JInt 40\<rparr>,
      \<lparr>mode = ''native'', batchsize = 4, batches = 5, cost = JInt 200\<rparr>,
      \<lparr>mode = ''native'', batchsize = 4, batches = 1, cost = JInt 50\<rparr>]"

definition sample_cost_models :: "cost_model list" where
  "sample_cost_models =
     [\<lparr>mode = ''wasm'', cost_row = 2, cost_call = 3, cost_cached = 3, score = NaN\<rparr>,
      \<lparr>mode = ''native'', cost_row = 7, cost_call = 3, cost_cached = 3, score = Finite 1\<rparr>]"

text \<open>A frame whose only mode has a single observation.\<close>

definition sample_single_observation :: "observation list" where
  "sample_single_observation =
     [\<lparr>mode = ''wasm'', batchsize = 1, batches = 2, cost = JInt 40\<rparr>]"



text \<open>Cost models of three modes, two of them with the same \<^verbatim>\<open>cost_row\<close>, and their deltas.\<close>

definition sample_three_models :: "cost_model list" where
  "sample_three_models =
     [\<lparr>mode = ''wasm'', cost_row = 2, cost_call = 3, cost_cached = 3, score = Finite 1\<rparr>,
      \<lparr>mode = ''native'', cost_row = 7, cost_call = 3, cost_cached = 3, score = Finite 1\<rparr>,
      \<lparr>mode = ''python'', cost_row = 7, cost_call = 1, cost_cached = 9, score = Finite 1\<rparr>]"

definition sample_deltas :: "int delta list" where
  "sample_deltas =
     [\<lparr>mode = ''native'', baseline = ''wasm'',
       deltas = [(''cost_row'', 5), (''cost_call'', 0), (''cost_cached'', 0)]\<rparr>,
      \<lparr>mode = ''python'', baseline = ''wasm'',
       deltas = [(''cost_row'', 5), (''cost_call'', - 2), (''cost_cached'', 6)]\<rparr>]"

section \<open>Sequencing\<close>

lemma and_then_Inr_iff:
  "and_then r f = Inr y \<longleftrightarrow> (\<exists>v. r = Inr v \<and> f v = Inr y)"
  by (cases r) (simp_all add: and_then_def)

lemma and_then_Inr [simp]: "and_then (Inr v) f = f v"
  by (simp add: and_then_def)

lemma and_then_Inl [simp]: "and_then (Inl e) f = Inl e"
  by (simp add: and_then_def)

lemma list_all2_setD1: "list_all2 P xs ys \<Longrightarrow> x \<in> set xs \<Longrightarrow> \<exists>y \<in> set ys. P x y"
  by (induction rule: list_all2_induct) auto

lemma list_all2_setD2: "list_all2 P xs ys \<Longrightarrow> y \<in> set ys \<Longrightarrow> \<exists>x \<in> set xs. P x y"
  by (induction rule: list_all2_induct) auto

section \<open>The metric\<close>

text \<open>
  C10. \<^verbatim>\<open>Metric.valgrind_name\<close> is total on the enumeration: it returns
  \<^verbatim>\<open>EstimatedCycles\<close> for \<open>cycles\<close> and \<^verbatim>\<open>Ir\<close> for \<open>instructions\<close>, and it raises
  for no member, so the \<^verbatim>\<open>ValueError\<close> branch is unreachable.
\<close>

theorem valgrind_name_total:
  "valgrind_name cycles = Inr ''EstimatedCycles''
   \<and> valgrind_name instructions = Inr ''Ir''
   \<and> (\<forall>m e. valgrind_name m \<noteq> Inl e)"
proof -
  have "valgrind_name m \<noteq> Inl e" for m e
    by (cases m) (simp_all add: valgrind_name_def)
  then show ?thesis
    by (simp add: valgrind_name_def)
qed

section \<open>The regular expressions match what the patterns say\<close>

lemma strip_prefix_Some: "strip_prefix p s = Some r \<longleftrightarrow> s = p @ r"
  by (induction p s rule: strip_prefix.induct) auto

lemma strip_prefix_append [simp]: "strip_prefix p (p @ r) = Some r"
  by (simp add: strip_prefix_Some)

lemma takeWhile_run:
  assumes "list_all P m" and "rest = [] \<or> \<not> P (hd rest)"
  shows "takeWhile P (m @ rest) = m"
proof -
  from assms(2) have "takeWhile P rest = []"
    by (simp add: takeWhile_eq_Nil_iff)
  with assms(1) show ?thesis
    by (simp add: list_all_iff)
qed



lemma not_digit_underscore: "\<not> is_digit (CHR ''_'')"
  by (simp add: is_digit_def)

lemma id_re_match_Some:
  "id_re_match s = Some (d1, d2) \<longleftrightarrow>
     (\<exists>rest. s = ''batchsize_'' @ d1 @ ''_batches_'' @ d2 @ rest
        \<and> d1 \<noteq> [] \<and> list_all is_digit d1 \<and> d2 \<noteq> [] \<and> list_all is_digit d2
        \<and> (rest = [] \<or> \<not> is_digit (hd rest)))"
proof
  assume "id_re_match s = Some (d1, d2)"
  then obtain r r2 where r: "s = ''batchsize_'' @ r" and d1: "d1 = takeWhile is_digit r" "d1 \<noteq> []"
    and r2: "dropWhile is_digit r = ''_batches_'' @ r2" and d2: "d2 = takeWhile is_digit r2" "d2 \<noteq> []"
    by (auto simp: id_re_match_def Let_def strip_prefix_Some split: option.splits if_splits)
  have "r = d1 @ ''_batches_'' @ d2 @ dropWhile is_digit r2"
    using takeWhile_dropWhile_id [of is_digit r] takeWhile_dropWhile_id [of is_digit r2]
    unfolding d1 d2 r2 by simp
  moreover have "list_all is_digit d1" "list_all is_digit d2"
    unfolding d1 d2 by (auto simp: list_all_iff dest: set_takeWhileD)
  moreover have "dropWhile is_digit r2 = [] \<or> \<not> is_digit (hd (dropWhile is_digit r2))"
    using hd_dropWhile by blast
  ultimately show "\<exists>rest. s = ''batchsize_'' @ d1 @ ''_batches_'' @ d2 @ rest
        \<and> d1 \<noteq> [] \<and> list_all is_digit d1 \<and> d2 \<noteq> [] \<and> list_all is_digit d2
        \<and> (rest = [] \<or> \<not> is_digit (hd rest))"
    using r d1(2) d2(2) by blast
next
  assume "\<exists>rest. s = ''batchsize_'' @ d1 @ ''_batches_'' @ d2 @ rest
        \<and> d1 \<noteq> [] \<and> list_all is_digit d1 \<and> d2 \<noteq> [] \<and> list_all is_digit d2
        \<and> (rest = [] \<or> \<not> is_digit (hd rest))"
  then obtain rest where s: "s = ''batchsize_'' @ (d1 @ ''_batches_'' @ d2 @ rest)"
    and d1: "d1 \<noteq> []" "list_all is_digit d1" and d2: "d2 \<noteq> []" "list_all is_digit d2"
    and rest: "rest = [] \<or> \<not> is_digit (hd rest)"
    by auto
  have 1: "strip_prefix ''batchsize_'' s = Some (d1 @ ''_batches_'' @ d2 @ rest)"
    unfolding s by (rule strip_prefix_append)
  have 2: "takeWhile is_digit (d1 @ ''_batches_'' @ d2 @ rest) = d1"
    using d1(2) by (rule takeWhile_run) (simp add: not_digit_underscore)
  have 3: "dropWhile is_digit (d1 @ ''_batches_'' @ d2 @ rest) = ''_batches_'' @ (d2 @ rest)"
    using d1(2) by (simp add: list_all_iff not_digit_underscore)
  have 4: "strip_prefix ''_batches_'' (''_batches_'' @ (d2 @ rest)) = Some (d2 @ rest)"
    by (rule strip_prefix_append)
  have 5: "takeWhile is_digit (d2 @ rest) = d2"
    using d2(2) rest by (rule takeWhile_run)
  show "id_re_match s = Some (d1, d2)"
    unfolding id_re_match_def 1 using d1(1) d2(1)
    by (simp only: option.case Let_def 2 3 4 5 if_False)
qed


section \<open>Parsing\<close>

lemma match_asserted_Inr:
  "match_asserted re x = Inr g \<longleftrightarrow> (\<exists>s. x = JString s \<and> re s = Some g)"
  by (cases x) (auto simp: match_asserted_def split: option.splits)

lemma unpack_single_profile:
  assumes "unpack_single v = Inr p" and "subscripts p (k # ks) = Inr c"
  shows "v = JArray [p]"
  using assms by (auto elim!: unpack_single.elims simp: and_then_Inr_iff)

lemma parse_line_Inr:
  "parse_line vm data = Inr ob \<longleftrightarrow>
     (\<exists>fname ident d1 d2 profile.
        subscript data ''function_name'' = Inr (JString fname)
        \<and> fn_re_match fname = Some (mode ob)
        \<and> subscript data ''id'' = Inr (JString ident)
        \<and> id_re_match ident = Some (d1, d2)
        \<and> batchsize ob = int_of_digits d1 \<and> batches ob = int_of_digits d2
        \<and> subscript data ''profiles'' = Inr (JArray [profile])
        \<and> subscripts profile (cost_path vm) = Inr (cost ob))"
proof
  assume a: "parse_line vm data = Inr ob"
  from a obtain fv where fv: "subscript data ''function_name'' = Inr fv"
    and a1: "and_then (match_asserted fn_re_match fv) (\<lambda>m.
     and_then (subscript data ''id'') (\<lambda>ident.
     and_then (match_asserted id_re_match ident) (\<lambda>(d1, d2).
     and_then (subscript data ''profiles'') (\<lambda>profiles.
     and_then (unpack_single profiles) (\<lambda>profile.
     and_then (subscripts profile (cost_path vm)) (\<lambda>c.
       Inr \<lparr>mode = m, batchsize = int_of_digits d1, batches = int_of_digits d2,
            cost = c\<rparr>)))))) = Inr ob"
    unfolding parse_line_def by (subst (asm) and_then_Inr_iff) blast
  from a1 obtain m where m: "match_asserted fn_re_match fv = Inr m"
    and a2: "and_then (subscript data ''id'') (\<lambda>ident.
     and_then (match_asserted id_re_match ident) (\<lambda>(d1, d2).
     and_then (subscript data ''profiles'') (\<lambda>profiles.
     and_then (unpack_single profiles) (\<lambda>profile.
     and_then (subscripts profile (cost_path vm)) (\<lambda>c.
       Inr \<lparr>mode = m, batchsize = int_of_digits d1, batches = int_of_digits d2,
            cost = c\<rparr>))))) = Inr ob"
    by (subst (asm) and_then_Inr_iff) blast
  from a2 obtain iv where iv: "subscript data ''id'' = Inr iv"
    and a3: "and_then (match_asserted id_re_match iv) (\<lambda>(d1, d2).
     and_then (subscript data ''profiles'') (\<lambda>profiles.
     and_then (unpack_single profiles) (\<lambda>profile.
     and_then (subscripts profile (cost_path vm)) (\<lambda>c.
       Inr \<lparr>mode = m, batchsize = int_of_digits d1, batches = int_of_digits d2,
            cost = c\<rparr>)))) = Inr ob"
    by (subst (asm) and_then_Inr_iff) blast
  from a3 obtain d1 d2 where d: "match_asserted id_re_match iv = Inr (d1, d2)"
    and a4: "and_then (subscript data ''profiles'') (\<lambda>profiles.
     and_then (unpack_single profiles) (\<lambda>profile.
     and_then (subscripts profile (cost_path vm)) (\<lambda>c.
       Inr \<lparr>mode = m, batchsize = int_of_digits d1, batches = int_of_digits d2,
            cost = c\<rparr>))) = Inr ob"
    by (subst (asm) and_then_Inr_iff) auto
  from a4 obtain profiles profile c where 2: "subscript data ''profiles'' = Inr profiles"
    "unpack_single profiles = Inr profile" "subscripts profile (cost_path vm) = Inr c"
    and ob: "ob = \<lparr>mode = m, batchsize = int_of_digits d1, batches = int_of_digits d2, cost = c\<rparr>"
    by (auto simp: and_then_Inr_iff)
  from m obtain fname where fname: "fv = JString fname" "fn_re_match fname = Some m"
    unfolding match_asserted_Inr by blast
  from d obtain ident where ident: "iv = JString ident" "id_re_match ident = Some (d1, d2)"
    unfolding match_asserted_Inr by blast
  have 1: "subscript data ''function_name'' = Inr (JString fname)" "fn_re_match fname = Some (mode ob)"
    "subscript data ''id'' = Inr (JString ident)" "id_re_match ident = Some (d1, d2)"
    "batchsize ob = int_of_digits d1" "batches ob = int_of_digits d2"
    "cost ob = c"
    using fv fname iv ident ob by simp_all
  from 2(2,3) have "profiles = JArray [profile]"
    unfolding cost_path_def by (rule unpack_single_profile)
  with 1 2 have "subscript data ''profiles'' = Inr (JArray [profile])"
    "subscripts profile (cost_path vm) = Inr (cost ob)"
    by simp_all
  with 1 show "\<exists>fname ident d1 d2 profile.
        subscript data ''function_name'' = Inr (JString fname)
        \<and> fn_re_match fname = Some (mode ob)
        \<and> subscript data ''id'' = Inr (JString ident)
        \<and> id_re_match ident = Some (d1, d2)
        \<and> batchsize ob = int_of_digits d1 \<and> batches ob = int_of_digits d2
        \<and> subscript data ''profiles'' = Inr (JArray [profile])
        \<and> subscripts profile (cost_path vm) = Inr (cost ob)"
    by blast
next
  assume "\<exists>fname ident d1 d2 profile.
        subscript data ''function_name'' = Inr (JString fname)
        \<and> fn_re_match fname = Some (mode ob)
        \<and> subscript data ''id'' = Inr (JString ident)
        \<and> id_re_match ident = Some (d1, d2)
        \<and> batchsize ob = int_of_digits d1 \<and> batches ob = int_of_digits d2
        \<and> subscript data ''profiles'' = Inr (JArray [profile])
        \<and> subscripts profile (cost_path vm) = Inr (cost ob)"
  then show "parse_line vm data = Inr ob"
    by (auto simp: parse_line_def match_asserted_def)
qed

lemma parse_lines_Inr:
  "parse_lines vm docs acc = Inr out \<longleftrightarrow>
     (\<exists>obs. out = acc @ obs \<and> list_all2 (\<lambda>data ob. parse_line vm data = Inr ob) docs obs)"
proof (induction docs arbitrary: acc)
  case Nil
  then show ?case by auto
next
  case (Cons data rest)
  show ?case
  proof
    assume "parse_lines vm (data # rest) acc = Inr out"
    then obtain ob where ob: "parse_line vm data = Inr ob"
      and "parse_lines vm rest (acc @ [ob]) = Inr out"
      by (auto simp: and_then_Inr_iff)
    then obtain obs where "out = (acc @ [ob]) @ obs"
      and "list_all2 (\<lambda>data ob. parse_line vm data = Inr ob) rest obs"
      using Cons.IH by blast
    with ob show "\<exists>obs. out = acc @ obs \<and> list_all2 (\<lambda>data ob. parse_line vm data = Inr ob) (data # rest) obs"
      by (intro exI [of _ "ob # obs"]) simp
  next
    assume "\<exists>obs. out = acc @ obs \<and> list_all2 (\<lambda>data ob. parse_line vm data = Inr ob) (data # rest) obs"
    then obtain ob obs where "out = acc @ ob # obs" and ob: "parse_line vm data = Inr ob"
      and "list_all2 (\<lambda>data ob. parse_line vm data = Inr ob) rest obs"
      by (auto simp: list_all2_Cons1)
    then have "parse_lines vm rest (acc @ [ob]) = Inr out"
      using Cons.IH [of "acc @ [ob]"] by auto
    with ob show "parse_lines vm (data # rest) acc = Inr out"
      by simp
  qed
qed

lemma parse_data_Inr:
  "parse_data file metric = Inr obs \<longleftrightarrow>
     (\<exists>vm. valgrind_name metric = Inr vm
        \<and> list_all2 (\<lambda>data ob. parse_line vm data = Inr ob) file obs)"
  by (auto simp: parse_data_def and_then_Inr_iff parse_lines_Inr)


lemma digit_val_nonneg: "is_digit c \<Longrightarrow> 0 \<le> digit_val c"
  by (auto simp: is_digit_def digit_val_def)

lemma foldl_digits_nonneg:
  "0 \<le> acc \<Longrightarrow> list_all is_digit ds \<Longrightarrow> 0 \<le> foldl (\<lambda>acc c. 10 * acc + digit_val c) acc ds"
proof (induction ds arbitrary: acc)
  case Nil
  then show ?case by simp
next
  case (Cons c ds)
  from Cons.prems have "0 \<le> 10 * acc + digit_val c"
    using digit_val_nonneg [of c] by simp
  with Cons show ?case by simp
qed

lemma int_of_digits_nonneg: "list_all is_digit ds \<Longrightarrow> 0 \<le> int_of_digits ds"
  unfolding int_of_digits_def by (rule foldl_digits_nonneg) simp

lemma parse_line_nonneg:
  assumes "parse_line vm data = Inr ob"
  shows "0 \<le> batchsize ob \<and> 0 \<le> batches ob"
proof -
  from assms obtain ident d1 d2 where "id_re_match ident = Some (d1, d2)"
    and ob: "batchsize ob = int_of_digits d1" "batches ob = int_of_digits d2"
    unfolding parse_line_Inr by blast
  then have "list_all is_digit d1" "list_all is_digit d2"
    unfolding id_re_match_Some by blast+
  then show ?thesis
    unfolding ob by (simp add: int_of_digits_nonneg)
qed


lemmas parse_eval =
  parse_data_def valgrind_name_def parse_line_def bench_line_def match_asserted_def
  fn_re_match_def id_re_match_def is_lower_def is_digit_def int_of_digits_def digit_val_def
  cost_path_def Let_def

text \<open>
  C5, as the code has it. Every observation \<^verbatim>\<open>parse_data\<close> produces has a batch size
  and a batch count that are integers and not negative. Zero is possible for both,
  since \<^verbatim>\<open>[0-9]+\<close> matches \<^verbatim>\<open>0\<close>, and the cost is stored unchecked.
\<close>

theorem parse_data_nonneg_batches:
  "parse_data file metric = Inr obs \<Longrightarrow> \<forall>ob \<in> set obs. 0 \<le> batchsize ob \<and> 0 \<le> batches ob"
proof
  fix ob
  assume "parse_data file metric = Inr obs" and "ob \<in> set obs"
  then obtain vm where "list_all2 (\<lambda>data ob. parse_line vm data = Inr ob) file obs" and "ob \<in> set obs"
    unfolding parse_data_Inr by blast
  from list_all2_setD2 [OF this] obtain data where "parse_line vm data = Inr ob"
    by blast
  then show "0 \<le> batchsize ob \<and> 0 \<le> batches ob"
    by (rule parse_line_nonneg)
qed

theorem parse_data_nonneg_batches_witness:
  "parse_data [bench_line ''bench_native'' ''batchsize_16_batches_0'' ''Ir'' (JInt 7)] instructions
     = Inr [\<lparr>mode = ''native'', batchsize = 16, batches = 0, cost = JInt 7\<rparr>]
   \<and> 0 \<le> batchsize \<lparr>mode = ''native'', batchsize = 16, batches = 0, cost = JInt 7\<rparr>
   \<and> 0 \<le> batches \<lparr>mode = ''native'', batchsize = 16, batches = 0, cost = JInt 7\<rparr>"
proof -
  have h: "parse_data [bench_line ''bench_native'' ''batchsize_16_batches_0'' ''Ir'' (JInt 7)] instructions
     = Inr [\<lparr>mode = ''native'', batchsize = 16, batches = 0, cost = JInt 7\<rparr>]"
    by (simp add: parse_eval)
  from parse_data_nonneg_batches [OF h] h show ?thesis
    by simp
qed

text \<open>
  C5, as the specification words it, fails: the line with the id
  \<^verbatim>\<open>batchsize_0_batches_0\<close> and the metric value \<open>-1\<close> parses to an
  observation whose batch size and batch count are not positive and whose cost is
  negative.
\<close>

theorem parse_data_zero_batch_counterexample:
  "parse_data [bench_line ''bench_wasm'' ''batchsize_0_batches_0'' ''EstimatedCycles'' (JInt (- 1))] cycles
     = Inr [\<lparr>mode = ''wasm'', batchsize = 0, batches = 0, cost = JInt (- 1)\<rparr>]
   \<and> \<not> (0 < batchsize \<lparr>mode = ''wasm'', batchsize = 0, batches = 0, cost = JInt (- 1)\<rparr>)
   \<and> \<not> (0 < batches \<lparr>mode = ''wasm'', batchsize = 0, batches = 0, cost = JInt (- 1)\<rparr>)
   \<and> \<not> nonneg_numeric (cost \<lparr>mode = ''wasm'', batchsize = 0, batches = 0, cost = JInt (- 1)\<rparr>)"
  by (simp add: parse_eval nonneg_numeric_def)



section \<open>The regression\<close>

lemma regression_loop_Inr:
  "regression_loop sk df ms acc = Inr out \<longleftrightarrow>
     (\<exists>rows. out = acc @ rows \<and> list_all2 (\<lambda>m r. regress_mode sk df m = Inr r) ms rows)"
proof (induction ms arbitrary: acc)
  case Nil
  then show ?case by auto
next
  case (Cons m ms)
  show ?case
  proof
    assume "regression_loop sk df (m # ms) acc = Inr out"
    then obtain r where r: "regress_mode sk df m = Inr r"
      and "regression_loop sk df ms (acc @ [r]) = Inr out"
      by (auto simp: and_then_Inr_iff)
    then obtain rows where "out = (acc @ [r]) @ rows"
      and "list_all2 (\<lambda>m r. regress_mode sk df m = Inr r) ms rows"
      using Cons.IH by blast
    with r show "\<exists>rows. out = acc @ rows \<and> list_all2 (\<lambda>m r. regress_mode sk df m = Inr r) (m # ms) rows"
      by (intro exI [of _ "r # rows"]) simp
  next
    assume "\<exists>rows. out = acc @ rows \<and> list_all2 (\<lambda>m r. regress_mode sk df m = Inr r) (m # ms) rows"
    then obtain r rows where "out = acc @ r # rows" and r: "regress_mode sk df m = Inr r"
      and "list_all2 (\<lambda>m r. regress_mode sk df m = Inr r) ms rows"
      by (auto simp: list_all2_Cons1)
    then have "regression_loop sk df ms (acc @ [r]) = Inr out"
      using Cons.IH [of "acc @ [r]"] by auto
    with r show "regression_loop sk df (m # ms) acc = Inr out"
      by simp
  qed
qed

lemma regression_Inr:
  "regression sk df = Inr out \<longleftrightarrow>
     (\<exists>rows. out = sort_key cost_row rows
        \<and> list_all2 (\<lambda>m r. regress_mode sk (with_totalrows df) m = Inr r)
             (sort (remdups (map mode df))) rows)"
proof -
  have "map mode (with_totalrows df) = map mode df"
    by (simp add: with_totalrows_def comp_def)
  then show ?thesis
    by (auto simp: regression_def Let_def and_then_Inr_iff regression_loop_Inr)
qed

lemma py_int_Inr: "py_int x = Inr a \<longleftrightarrow> (\<exists>v. x = Finite v \<and> a = trunc v)"
  by (cases x) (auto simp: py_int_def)

lemma trunc_nonneg: "0 \<le> v \<Longrightarrow> 0 \<le> trunc v"
  by (simp add: trunc_def)

text \<open>What a returning loop body has computed, call by call.\<close>

lemma regress_mode_Inr:
  assumes "regress_mode sk df m = Inr r"
  shows "\<exists>Xs s0 s1 s2 c0 c1 c2 q0 q1 q2 sc.
           scaler_fit_transform sk (design_matrix sk (filter (\<lambda>ob. mode ob = m) df))
             = Inr (Xs, s0, s1, s2)
           \<and> linreg_fit sk Xs (map cost (filter (\<lambda>ob. mode ob = m) df)) = Inr ((c0, c1, c2), 0)
           \<and> np_divide sk c0 s0 = Finite q0 \<and> np_divide sk c1 s1 = Finite q1
           \<and> np_divide sk c2 s2 = Finite q2
           \<and> reg_score sk ((c0, c1, c2), 0) Xs (map cost (filter (\<lambda>ob. mode ob = m) df)) = Inr sc
           \<and> r = \<lparr>mode = m, cost_row = trunc q0, cost_call = trunc q1, cost_cached = trunc q2,
                   score = sc\<rparr>"
proof -
  define X where "X = design_matrix sk (filter (\<lambda>ob. mode ob = m) df)"
  define y where "y = map cost (filter (\<lambda>ob. mode ob = m) df)"
  from assms obtain p where p: "scaler_fit_transform sk X = Inr p"
    and 1: "(case p of (Xs, s0, s1, s2) \<Rightarrow>
         and_then (linreg_fit sk Xs y) (\<lambda>((c0, c1, c2), intercept).
           if intercept \<noteq> 0 then Inl AssertionError
           else
             and_then (py_int (np_divide sk c0 s0)) (\<lambda>actual_coef0.
             and_then (py_int (np_divide sk c1 s1)) (\<lambda>actual_coef1.
             and_then (py_int (np_divide sk c2 s2)) (\<lambda>actual_intercept.
             and_then (reg_score sk ((c0, c1, c2), intercept) Xs y) (\<lambda>sc.
               Inr \<lparr>mode = m, cost_row = actual_coef0, cost_call = actual_coef1,
                    cost_cached = actual_intercept, score = sc\<rparr>)))))) = Inr r"
    unfolding regress_mode_def Let_def X_def y_def
    by (subst (asm) and_then_Inr_iff) blast
  obtain Xs s0 s1 s2 where ps: "p = (Xs, s0, s1, s2)"
    by (metis prod_cases4)
  from 1 ps obtain c0 c1 c2 i where f: "linreg_fit sk Xs y = Inr ((c0, c1, c2), i)"
    and 2: "(if i \<noteq> 0 then Inl AssertionError
           else
             and_then (py_int (np_divide sk c0 s0)) (\<lambda>actual_coef0.
             and_then (py_int (np_divide sk c1 s1)) (\<lambda>actual_coef1.
             and_then (py_int (np_divide sk c2 s2)) (\<lambda>actual_intercept.
             and_then (reg_score sk ((c0, c1, c2), i) Xs y) (\<lambda>sc.
               Inr \<lparr>mode = m, cost_row = actual_coef0, cost_call = actual_coef1,
                    cost_cached = actual_intercept, score = sc\<rparr>))))) = Inr r"
    by (auto simp: and_then_Inr_iff)
  from 2 have i: "i = 0"
    by (simp split: if_splits)
  from 2 i obtain a0 a1 a2 sc where a: "py_int (np_divide sk c0 s0) = Inr a0"
    "py_int (np_divide sk c1 s1) = Inr a1" "py_int (np_divide sk c2 s2) = Inr a2"
    and sc: "reg_score sk ((c0, c1, c2), 0) Xs y = Inr sc"
    and r: "r = \<lparr>mode = m, cost_row = a0, cost_call = a1, cost_cached = a2, score = sc\<rparr>"
    by (auto simp: and_then_Inr_iff)
  from a obtain q0 q1 q2 where "np_divide sk c0 s0 = Finite q0" "a0 = trunc q0"
    "np_divide sk c1 s1 = Finite q1" "a1 = trunc q1"
    "np_divide sk c2 s2 = Finite q2" "a2 = trunc q2"
    unfolding py_int_Inr by blast
  with p ps f i sc r show ?thesis
    unfolding X_def y_def by blast
qed

lemma regress_mode_mode: "regress_mode sk df m = Inr r \<Longrightarrow> mode r = m"
  by (drule regress_mode_Inr) auto

lemma regress_mode_nonneg:
  assumes "library_contract sk" and "regress_mode sk df m = Inr r"
  shows "0 \<le> cost_row r \<and> 0 \<le> cost_call r \<and> 0 \<le> cost_cached r"
proof -
  from regress_mode_Inr [OF assms(2)] obtain X y Xs s0 s1 s2 c0 c1 c2 q0 q1 q2 sc where
    sc: "scaler_fit_transform sk X = Inr (Xs, s0, s1, s2)"
    and fit: "linreg_fit sk Xs y = Inr ((c0, c1, c2), 0)"
    and q: "np_divide sk c0 s0 = Finite q0" "np_divide sk c1 s1 = Finite q1"
    "np_divide sk c2 s2 = Finite q2"
    and r: "r = \<lparr>mode = m, cost_row = trunc q0, cost_call = trunc q1, cost_cached = trunc q2,
                   score = sc\<rparr>"
    by blast
  from assms(1) sc have pos: "0 < s0" "0 < s1" "0 < s2"
    unfolding library_contract_def by blast+
  from assms(1) fit have nn: "0 \<le> c0" "0 \<le> c1" "0 \<le> c2"
    unfolding library_contract_def by blast+
  have div: "np_divide sk c s = Finite q \<Longrightarrow> 0 \<le> c \<Longrightarrow> 0 < s \<Longrightarrow> 0 \<le> q" for c s q
    using assms(1) unfolding library_contract_def by (metis float64.distinct(1) float64.inject)
  from div [OF q(1) nn(1) pos(1)] div [OF q(2) nn(2) pos(2)] div [OF q(3) nn(3) pos(3)]
  show ?thesis
    unfolding r by (simp add: trunc_nonneg)
qed

lemma regression_modes:
  assumes "regression sk df = Inr out"
  shows "mset (map mode out) = mset (remdups (map mode df))"
proof -
  from assms obtain rows where out: "out = sort_key cost_row rows"
    and rows: "list_all2 (\<lambda>m r. regress_mode sk (with_totalrows df) m = Inr r)
                 (sort (remdups (map mode df))) rows"
    by (auto simp: regression_Inr)
  have "list_all2 (\<lambda>m r. mode r = m) (sort (remdups (map mode df))) rows"
    using rows by (rule list_all2_mono) (simp add: regress_mode_mode)
  then have "map mode rows = sort (remdups (map mode df))"
    by (induction rule: list_all2_induct) simp_all
  then have "mset (map mode rows) = mset (remdups (map mode df))"
    by simp
  moreover have "mset (map mode out) = mset (map mode rows)"
    unfolding out by (metis mset_map mset_sort)
  ultimately show ?thesis by simp
qed

lemma regression_row_origin:
  assumes "regression sk df = Inr out" and "r \<in> set out"
  shows "regress_mode sk (with_totalrows df) (mode r) = Inr r"
proof -
  from assms(1) obtain rows where out: "out = sort_key cost_row rows"
    and rows: "list_all2 (\<lambda>m r. regress_mode sk (with_totalrows df) m = Inr r)
                 (sort (remdups (map mode df))) rows"
    by (auto simp: regression_Inr)
  from assms(2) out have "r \<in> set rows" by simp
  from list_all2_setD2 [OF rows this] obtain m where m: "regress_mode sk (with_totalrows df) m = Inr r"
    by blast
  then have "mode r = m" by (rule regress_mode_mode)
  with m show ?thesis by simp
qed

lemma filter_with_totalrows:
  "filter (\<lambda>ob. mode ob = m) (with_totalrows df) = with_totalrows (filter (\<lambda>ob. mode ob = m) df)"
  by (simp add: with_totalrows_def filter_map comp_def)





lemmas regression_eval =
  regression_def with_totalrows_def wrap_int64_def regress_mode_def design_matrix_def
  py_int_def trunc_def reg_score_def

text \<open>
  C1. With libraries that meet \<open>library_contract\<close>, the frame \<^verbatim>\<open>regression\<close> returns
  has a row for every mode of the input, and in every row \<^verbatim>\<open>cost_row\<close>,
  \<^verbatim>\<open>cost_call\<close> and \<^verbatim>\<open>cost_cached\<close> are integers that are not negative: each is the
  quotient of a non-negative coefficient by a positive scale, truncated.
\<close>

theorem regression_coefficients_nonneg:
  assumes "library_contract sk" and "regression sk df = Inr out"
  shows "(\<forall>m \<in> set (map mode df). \<exists>r \<in> set out. mode r = m)
         \<and> (\<forall>r \<in> set out. 0 \<le> cost_row r \<and> 0 \<le> cost_call r \<and> 0 \<le> cost_cached r)"
proof -
  have "0 \<le> cost_row r \<and> 0 \<le> cost_call r \<and> 0 \<le> cost_cached r" if "r \<in> set out" for r
    using assms(1) regression_row_origin [OF assms(2) that] by (rule regress_mode_nonneg)
  moreover have "\<exists>r \<in> set out. mode r = m" if "m \<in> set (map mode df)" for m
  proof -
    have "set (map mode out) = set (map mode df)"
      using regression_modes [OF assms(2)] by (metis mset_eq_setD set_remdups)
    with that have "m \<in> set (map mode out)" by simp
    then show ?thesis by auto
  qed
  ultimately show ?thesis by blast
qed

theorem regression_coefficients_nonneg_witness:
  "library_contract sample_libraries
   \<and> regression sample_libraries sample_observations = Inr sample_cost_models
   \<and> list_all (\<lambda>m. list_ex (\<lambda>r. mode r = m) sample_cost_models) (map mode sample_observations)
   \<and> list_all (\<lambda>r. 0 \<le> cost_row r \<and> 0 \<le> cost_call r \<and> 0 \<le> cost_cached r) sample_cost_models"
proof -
  have c: "library_contract sample_libraries"
    by (simp add: library_contract_def sample_libraries_def)
  have h: "regression sample_libraries sample_observations = Inr sample_cost_models"
    by (simp add: regression_eval sample_observations_def sample_libraries_def
        sample_cost_models_def is_number_def)
  from regression_coefficients_nonneg [OF c h] c h show ?thesis
    by (simp add: list_all_iff list_ex_iff)
qed

text \<open>
  C3. Whatever the libraries compute, the frame \<^verbatim>\<open>regression\<close> returns records a NaN
  as the score of every mode that has fewer than two observations; a NaN is no number
  between 0 and 1.
\<close>

theorem regression_score_nan:
  assumes "regression sk df = Inr out" and "r \<in> set out"
    and "length (filter (\<lambda>ob. mode ob = mode r) df) < 2"
  shows "score r = NaN \<and> \<not> in_unit_interval (score r)"
proof -
  define y where "y = map cost (filter (\<lambda>ob. mode ob = mode r) (with_totalrows df))"
  from regress_mode_Inr [OF regression_row_origin [OF assms(1,2)]]
  obtain reg Xs sc a0 a1 a2 where sc: "reg_score sk reg Xs y = Inr sc"
    and r: "r = \<lparr>mode = mode r, cost_row = a0, cost_call = a1, cost_cached = a2, score = sc\<rparr>"
    unfolding y_def by blast
  have "score r = sc"
    by (subst r) simp
  have "length y = length (filter (\<lambda>ob. mode ob = mode r) df)"
    unfolding y_def filter_with_totalrows by (simp add: with_totalrows_def)
  with assms(3) sc have "sc = NaN"
    by (simp add: reg_score_def)
  with \<open>score r = sc\<close> show ?thesis
    by (simp add: in_unit_interval_def)
qed

theorem regression_score_nan_witness:
  "regression sample_libraries sample_single_observation
     = Inr [\<lparr>mode = ''wasm'', cost_row = 2, cost_call = 3, cost_cached = 3, score = NaN\<rparr>]
   \<and> length (filter (\<lambda>ob. mode ob = ''wasm'') sample_single_observation) < 2
   \<and> \<not> in_unit_interval
          (score \<lparr>mode = ''wasm'', cost_row = 2, cost_call = 3, cost_cached = 3, score = NaN\<rparr>)"
proof -
  have h: "regression sample_libraries sample_single_observation
     = Inr [\<lparr>mode = ''wasm'', cost_row = 2, cost_call = 3, cost_cached = 3, score = NaN\<rparr>]"
    by (simp add: regression_eval sample_single_observation_def sample_libraries_def
        is_number_def)
  have l: "length (filter (\<lambda>ob. mode ob = mode \<lparr>mode = ''wasm'', cost_row = 2, cost_call = 3,
              cost_cached = 3, score = NaN\<rparr>) sample_single_observation) < 2"
    by (simp add: sample_single_observation_def)
  from regression_score_nan [OF h _ l] h l show ?thesis
    by simp
qed




text \<open>
  C8. The frame \<^verbatim>\<open>regression\<close> returns is sorted by \<^verbatim>\<open>cost_row\<close> in non-decreasing
  order, so no row has a lower \<^verbatim>\<open>cost_row\<close> than the first one. This holds whatever
  the libraries compute.
\<close>

theorem regression_sorted:
  "regression sk df = Inr out \<Longrightarrow>
     sorted (map cost_row out) \<and> (\<forall>r \<in> set out. cost_row (hd out) \<le> cost_row r)"
proof -
  assume "regression sk df = Inr out"
  then obtain rows where out: "out = sort_key cost_row rows"
    by (auto simp: regression_Inr)
  then have s: "sorted (map cost_row out)"
    by simp
  have "cost_row (hd out) \<le> cost_row r" if "r \<in> set out" for r
  proof (cases out)
    case Nil
    with that show ?thesis by simp
  next
    case (Cons a as)
    with s that show ?thesis by auto
  qed
  with s show ?thesis by blast
qed

theorem regression_sorted_witness:
  "regression sample_libraries sample_observations = Inr sample_cost_models
   \<and> sorted (map cost_row sample_cost_models)
   \<and> list_all (\<lambda>r. cost_row (hd sample_cost_models) \<le> cost_row r) sample_cost_models"
proof -
  have h: "regression sample_libraries sample_observations = Inr sample_cost_models"
    by (simp add: regression_eval sample_observations_def sample_libraries_def
        sample_cost_models_def is_number_def)
  from regression_sorted [OF h] h show ?thesis
    by (simp add: list_all_iff)
qed

section \<open>The deltas\<close>

lemma row0_find:
  "row0 df m = (case List.find (\<lambda>r. mode r = m) df of None \<Rightarrow> Inl NoRowsReturned | Some r \<Rightarrow> Inr r)"
  unfolding row0_def by (induction df) auto

lemma unique_maintain_order_set:
  "set (unique_maintain_order seen xs) = set xs - set seen"
  by (induction seen xs rule: unique_maintain_order.induct) auto

lemma unique_maintain_order_distinct:
  "distinct (unique_maintain_order seen xs)"
  by (induction seen xs rule: unique_maintain_order.induct)
     (auto simp: unique_maintain_order_set)

lemma find_mode_Some:
  "m \<in> set (map mode df) \<Longrightarrow> \<exists>r. List.find (\<lambda>r. mode r = m) df = Some r"
  by (cases "List.find (\<lambda>r. mode r = m) df") (auto simp: find_None_iff)

lemma find_mode_in: "List.find (\<lambda>r. mode r = m) df = Some r \<Longrightarrow> m \<in> set (map mode df)"
  by (auto simp: find_Some_iff)

lemma cost_columns_eq: "cost_columns = [''cost_row'', ''cost_call'', ''cost_cached'']"
  by (simp add: cost_columns_def cost_model_columns_def startswith_def)

lemma append_deltas_Inr:
  "append_deltas op row1 row2 cols = Inr d \<Longrightarrow>
     map fst d = cols
     \<and> (\<forall>(col, v) \<in> set d. \<exists>a b. row_get row1 col = Inr a \<and> row_get row2 col = Inr b \<and> op a b = Inr v)"
proof (induction cols arbitrary: d)
  case Nil
  then show ?case by simp
next
  case (Cons col cols)
  then show ?case
    by (fastforce simp: and_then_Inr_iff)
qed

lemma row_get_cost_columns: "col \<in> set cost_columns \<Longrightarrow> \<exists>a. row_get row col = Inr a"
  by (auto simp: cost_columns_eq row_get_def)

lemma append_deltas_succeeds:
  assumes "\<forall>a b. \<exists>v. op a b = Inr v" and "set cols \<subseteq> set cost_columns"
  shows "\<exists>d. append_deltas op row1 row2 cols = Inr d"
  using assms(2)
proof (induction cols)
  case Nil
  show ?case by simp
next
  case (Cons col cols)
  then obtain a b where "row_get row1 col = Inr a" "row_get row2 col = Inr b"
    using row_get_cost_columns by (metis list.set_intros(1) subsetD)
  moreover obtain v where "op a b = Inr v" using assms(1) by blast
  moreover obtain rest where "append_deltas op row1 row2 cols = Inr rest"
    using Cons by auto
  ultimately show ?case by simp
qed

lemma calc_delta_inner_Inr:
  assumes "List.find (\<lambda>r. mode r = m2) df = Some row2"
    and "calc_delta_inner op df cols m2 row2 ms acc = Inr out"
  shows "\<exists>rows. out = acc @ rows \<and> list_all2 (emitted op df cols m2) (filter (has_baseline df m2) ms) rows"
  using assms(2)
proof (induction ms arbitrary: acc)
  case Nil
  then show ?case by simp
next
  case (Cons m1 ms)
  from Cons.prems obtain row1 where row1: "List.find (\<lambda>r. mode r = m1) df = Some row1"
    by (auto simp: and_then_Inr_iff row0_find split: option.splits)
  show ?case
  proof (cases "cost_row row1 \<ge> cost_row row2")
    case True
    with row1 assms(1) have "\<not> has_baseline df m2 m1"
      by (simp add: has_baseline_def)
    moreover from True row1 Cons.prems have "calc_delta_inner op df cols m2 row2 ms acc = Inr out"
      by (simp add: row0_find)
    ultimately show ?thesis using Cons.IH by simp
  next
    case False
    with row1 assms(1) have l: "has_baseline df m2 m1"
      by (simp add: has_baseline_def)
    from False row1 Cons.prems obtain x where x: "append_deltas op row1 row2 cols = Inr x"
      and rest: "calc_delta_inner op df cols m2 row2 ms (acc @ [\<lparr>mode = m2, baseline = m1, deltas = x\<rparr>]) = Inr out"
      by (auto simp: row0_find and_then_Inr_iff)
    from Cons.IH [OF rest] obtain rows where
      "out = (acc @ [\<lparr>mode = m2, baseline = m1, deltas = x\<rparr>]) @ rows"
      and "list_all2 (emitted op df cols m2) (filter (has_baseline df m2) ms) rows"
      by blast
    moreover have "emitted op df cols m2 m1 \<lparr>mode = m2, baseline = m1, deltas = x\<rparr>"
      using row1 assms(1) False x by (auto simp: emitted_def)
    ultimately show ?thesis using l
      by (intro exI [of _ "\<lparr>mode = m2, baseline = m1, deltas = x\<rparr> # rows"]) simp
  qed
qed

lemma calc_delta_outer_Inr:
  assumes "calc_delta_outer op df cols modes ms acc = Inr out"
  shows "\<exists>rowss. out = acc @ concat rowss
           \<and> list_all2 (\<lambda>m2 rows. list_all2 (emitted op df cols m2) (filter (has_baseline df m2) modes) rows)
                ms rowss"
  using assms
proof (induction ms arbitrary: acc)
  case Nil
  then show ?case by simp
next
  case (Cons m2 ms)
  from Cons.prems obtain row2 acc' where row2: "List.find (\<lambda>r. mode r = m2) df = Some row2"
    and inner: "calc_delta_inner op df cols m2 row2 modes acc = Inr acc'"
    and rest: "calc_delta_outer op df cols modes ms acc' = Inr out"
    by (auto simp: and_then_Inr_iff row0_find split: option.splits)
  from calc_delta_inner_Inr [OF row2 inner] obtain rows where
    rows: "acc' = acc @ rows" "list_all2 (emitted op df cols m2) (filter (has_baseline df m2) modes) rows"
    by blast
  from Cons.IH [OF rest] obtain rowss where
    "out = acc' @ concat rowss"
    "list_all2 (\<lambda>m2 rows. list_all2 (emitted op df cols m2) (filter (has_baseline df m2) modes) rows) ms rowss"
    by blast
  with rows show ?case
    by (intro exI [of _ "rows # rowss"]) simp
qed

lemma calc_delta_inner_succeeds:
  assumes "\<forall>a b. \<exists>v. op a b = Inr v" and "set cols \<subseteq> set cost_columns"
    and "set ms \<subseteq> set (map mode df)"
  shows "\<exists>out. calc_delta_inner op df cols m2 row2 ms acc = Inr out"
  using assms(3)
proof (induction ms arbitrary: acc)
  case Nil
  show ?case by simp
next
  case (Cons m1 ms)
  then obtain row1 where row1: "List.find (\<lambda>r. mode r = m1) df = Some row1"
    using find_mode_Some [of m1 df] by auto
  obtain x where "append_deltas op row1 row2 cols = Inr x"
    using append_deltas_succeeds [OF assms(1,2)] by blast
  with row1 Cons show ?case
    by (auto simp: row0_find)
qed

lemma calc_delta_outer_succeeds:
  assumes "\<forall>a b. \<exists>v. op a b = Inr v" and "set cols \<subseteq> set cost_columns"
    and "set modes \<subseteq> set (map mode df)" and "set ms \<subseteq> set (map mode df)"
  shows "\<exists>out. calc_delta_outer op df cols modes ms acc = Inr out"
  using assms(4)
proof (induction ms arbitrary: acc)
  case Nil
  show ?case by simp
next
  case (Cons m2 ms)
  then obtain row2 where row2: "List.find (\<lambda>r. mode r = m2) df = Some row2"
    using find_mode_Some [of m2 df] by auto
  obtain acc' where "calc_delta_inner op df cols m2 row2 modes acc = Inr acc'"
    using calc_delta_inner_succeeds [OF assms(1,2,3)] by blast
  with row2 Cons show ?case
    by (auto simp: row0_find)
qed

lemma calc_delta_Inr:
  assumes "calc_delta df op = Inr out"
  shows "\<exists>rowss. out = concat rowss
           \<and> list_all2 (\<lambda>m2 rows. list_all2 (emitted op df cost_columns m2)
                  (filter (has_baseline df m2) (unique_maintain_order [] (map mode df))) rows)
                (unique_maintain_order [] (map mode df)) rowss"
  using calc_delta_outer_Inr [of op df cost_columns "unique_maintain_order [] (map mode df)"
      "unique_maintain_order [] (map mode df)" "[]" out] assms
  by (simp add: calc_delta_def Let_def cost_columns_def)

lemma calc_delta_succeeds:
  assumes "\<forall>a b. \<exists>v. op a b = Inr v"
  shows "\<exists>out. calc_delta df op = Inr out"
  using calc_delta_outer_succeeds [OF assms, of cost_columns "unique_maintain_order [] (map mode df)" df
      "unique_maintain_order [] (map mode df)" "[]"]
  by (simp add: calc_delta_def Let_def cost_columns_def unique_maintain_order_set)

lemma emitted_keys:
  "list_all2 (emitted op df cols m2) ms rows \<Longrightarrow>
     map (\<lambda>d. (baseline d, mode d)) rows = map (\<lambda>m1. (m1, m2)) ms"
  by (induction rule: list_all2_induct) (auto simp: emitted_def)

lemma emitted_keys_concat:
  "list_all2 (\<lambda>m2 rows. list_all2 (emitted op df cols m2) (f m2) rows) ms rowss \<Longrightarrow>
     map (\<lambda>d. (baseline d, mode d)) (concat rowss)
       = concat (map (\<lambda>m2. map (\<lambda>m1. (m1, m2)) (f m2)) ms)"
  by (induction rule: list_all2_induct) (simp_all add: emitted_keys)

lemma distinct_pairs:
  assumes "\<And>m2. distinct (f m2)"
  shows "distinct ms \<Longrightarrow> distinct (concat (map (\<lambda>m2. map (\<lambda>m1. (m1, m2)) (f m2)) ms))"
proof (induction ms)
  case Nil
  show ?case by simp
next
  case (Cons m ms)
  have "distinct (map (\<lambda>m1. (m1, m)) (f m))"
    using assms [of m] by (simp add: distinct_map inj_on_def)
  with Cons show ?case
    by auto
qed

lemma calc_delta_distinct:
  assumes "calc_delta df op = Inr out"
  shows "distinct (map (\<lambda>d. (baseline d, mode d)) out)"
proof -
  define modes where "modes = unique_maintain_order [] (map mode df)"
  from calc_delta_Inr [OF assms] obtain rowss where out: "out = concat rowss"
    and all: "list_all2 (\<lambda>m2 rows. list_all2 (emitted op df cost_columns m2) (filter (has_baseline df m2) modes) rows)
                modes rowss"
    unfolding modes_def by blast
  have d: "distinct modes"
    unfolding modes_def by (rule unique_maintain_order_distinct)
  then have "distinct (concat (map (\<lambda>m2. map (\<lambda>m1. (m1, m2)) (filter (has_baseline df m2) modes)) modes))"
    by (intro distinct_pairs) simp_all
  then show ?thesis
    unfolding out emitted_keys_concat [OF all] .
qed

text \<open>
  C2. When \<^verbatim>\<open>calc_delta\<close> returns, its frame has a row with baseline \<open>m1\<close> and mode
  \<open>m2\<close> if and only if both are modes of \<open>df\<close> and the \<^verbatim>\<open>cost_row\<close> of \<open>m1\<close> is
  strictly lower than that of \<open>m2\<close>; no pair has two rows; and every row carries, for
  each column whose name starts with \<^verbatim>\<open>cost_\<close> and in the order of the columns, the
  value \<open>op\<close> gives for the two rows' entries of that column. When \<open>op\<close> never raises,
  \<^verbatim>\<open>calc_delta\<close> returns.
\<close>

theorem calc_delta_emits:
  "(calc_delta df op = Inr out \<longrightarrow>
      (\<forall>m1 m2. (\<exists>d \<in> set out. baseline d = m1 \<and> mode d = m2) \<longleftrightarrow> has_baseline df m2 m1)
      \<and> distinct (map (\<lambda>d. (baseline d, mode d)) out)
      \<and> (\<forall>d \<in> set out. \<exists>row1 row2.
             List.find (\<lambda>r. mode r = baseline d) df = Some row1
             \<and> List.find (\<lambda>r. mode r = mode d) df = Some row2
             \<and> map fst (deltas d) = filter (\<lambda>col. startswith col ''cost_'') cost_model_columns
             \<and> (\<forall>(col, v) \<in> set (deltas d).
                    \<exists>a b. row_get row1 col = Inr a \<and> row_get row2 col = Inr b \<and> op a b = Inr v)))
   \<and> ((\<forall>a b. \<exists>v. op a b = Inr v) \<longrightarrow> (\<exists>res. calc_delta df op = Inr res))"
proof (intro conjI impI)
  assume "\<forall>a b. \<exists>v. op a b = Inr v"
  then show "\<exists>res. calc_delta df op = Inr res"
    by (rule calc_delta_succeeds)
next
  assume r: "calc_delta df op = Inr out"
  define modes where "modes = unique_maintain_order [] (map mode df)"
  from calc_delta_Inr [OF r] obtain rowss where out: "out = concat rowss"
    and all: "list_all2 (\<lambda>m2 rows. list_all2 (emitted op df cost_columns m2) (filter (has_baseline df m2) modes) rows)
                modes rowss"
    unfolding modes_def by blast
  have modes: "set modes = set (map mode df)"
    by (simp add: modes_def unique_maintain_order_set)
  have sound: "\<exists>m1 m2. has_baseline df m2 m1 \<and> emitted op df cost_columns m2 m1 d" if "d \<in> set out" for d
  proof -
    from that out obtain rows where "rows \<in> set rowss" "d \<in> set rows" by auto
    from list_all2_setD2 [OF all \<open>rows \<in> set rowss\<close>]
    obtain m2 where "list_all2 (emitted op df cost_columns m2) (filter (has_baseline df m2) modes) rows"
      by blast
    from list_all2_setD2 [OF this \<open>d \<in> set rows\<close>]
    obtain m1 where "m1 \<in> set (filter (has_baseline df m2) modes)"
      "emitted op df cost_columns m2 m1 d"
      by blast
    then show ?thesis by auto
  qed
  have complete: "\<exists>d \<in> set out. emitted op df cost_columns m2 m1 d" if "has_baseline df m2 m1" for m1 m2
  proof -
    from that have "m1 \<in> set modes" "m2 \<in> set modes"
      unfolding modes has_baseline_def by (auto dest: find_mode_in)
    from list_all2_setD1 [OF all \<open>m2 \<in> set modes\<close>]
    obtain rows where rows: "rows \<in> set rowss"
      "list_all2 (emitted op df cost_columns m2) (filter (has_baseline df m2) modes) rows"
      by blast
    from that \<open>m1 \<in> set modes\<close> have "m1 \<in> set (filter (has_baseline df m2) modes)" by simp
    from list_all2_setD1 [OF rows(2) this]
    obtain d where "d \<in> set rows" "emitted op df cost_columns m2 m1 d"
      by blast
    with rows(1) out show ?thesis by auto
  qed
  from r show "distinct (map (\<lambda>d. (baseline d, mode d)) out)"
    by (rule calc_delta_distinct)
  show "\<forall>m1 m2. (\<exists>d \<in> set out. baseline d = m1 \<and> mode d = m2) \<longleftrightarrow> has_baseline df m2 m1"
  proof (intro allI iffI)
    fix m1 m2
    assume "\<exists>d \<in> set out. baseline d = m1 \<and> mode d = m2"
    then obtain d where "d \<in> set out" "baseline d = m1" "mode d = m2" by blast
    with sound [of d] show "has_baseline df m2 m1"
      by (auto simp: emitted_def)
  next
    fix m1 m2
    assume "has_baseline df m2 m1"
    from complete [OF this] obtain d where "d \<in> set out" "emitted op df cost_columns m2 m1 d"
      by blast
    moreover from this(2) have "baseline d = m1 \<and> mode d = m2"
      by (auto simp: emitted_def)
    ultimately show "\<exists>d \<in> set out. baseline d = m1 \<and> mode d = m2"
      by blast
  qed
  show "\<forall>d \<in> set out. \<exists>row1 row2.
             List.find (\<lambda>r. mode r = baseline d) df = Some row1
             \<and> List.find (\<lambda>r. mode r = mode d) df = Some row2
             \<and> map fst (deltas d) = filter (\<lambda>col. startswith col ''cost_'') cost_model_columns
             \<and> (\<forall>(col, v) \<in> set (deltas d).
                    \<exists>a b. row_get row1 col = Inr a \<and> row_get row2 col = Inr b \<and> op a b = Inr v)"
  proof
    fix d assume "d \<in> set out"
    from sound [OF this] obtain m1 m2 row1 row2 x where
      f: "List.find (\<lambda>r. mode r = m1) df = Some row1" "List.find (\<lambda>r. mode r = m2) df = Some row2"
      and x: "append_deltas op row1 row2 cost_columns = Inr x"
      and d: "d = \<lparr>mode = m2, baseline = m1, deltas = x\<rparr>"
      by (auto simp: emitted_def)
    from append_deltas_Inr [OF x] f d show "\<exists>row1 row2.
             List.find (\<lambda>r. mode r = baseline d) df = Some row1
             \<and> List.find (\<lambda>r. mode r = mode d) df = Some row2
             \<and> map fst (deltas d) = filter (\<lambda>col. startswith col ''cost_'') cost_model_columns
             \<and> (\<forall>(col, v) \<in> set (deltas d).
                    \<exists>a b. row_get row1 col = Inr a \<and> row_get row2 col = Inr b \<and> op a b = Inr v)"
      by (auto simp: cost_columns_def)
  qed
qed

theorem calc_delta_emits_witness:
  "calc_delta sample_three_models delta_abs = Inr sample_deltas
   \<and> has_baseline sample_three_models ''native'' ''wasm''
   \<and> (\<exists>d \<in> set sample_deltas. baseline d = ''wasm'' \<and> mode d = ''native'')
   \<and> \<not> has_baseline sample_three_models ''python'' ''native''
   \<and> \<not> (\<exists>d \<in> set sample_deltas. baseline d = ''native'' \<and> mode d = ''python'')
   \<and> distinct (map (\<lambda>d. (baseline d, mode d)) sample_deltas)"
proof -
  have h: "calc_delta sample_three_models delta_abs = Inr sample_deltas"
    by (simp add: calc_delta_def sample_three_models_def delta_abs_def sample_deltas_def
        cost_model_columns_def startswith_def row0_def row_get_def)
  have yes: "has_baseline sample_three_models ''native'' ''wasm''"
    by (simp add: has_baseline_def sample_three_models_def)
  have no: "\<not> has_baseline sample_three_models ''python'' ''native''"
    by (simp add: has_baseline_def sample_three_models_def)
  from calc_delta_emits [of sample_three_models delta_abs sample_deltas] h
  have iff: "\<And>m1 m2. (\<exists>d \<in> set sample_deltas. baseline d = m1 \<and> mode d = m2)
                \<longleftrightarrow> has_baseline sample_three_models m2 m1"
    and dist: "distinct (map (\<lambda>d. (baseline d, mode d)) sample_deltas)"
    by blast+
  from iff [of "''wasm''" "''native''"] yes
  have "\<exists>d \<in> set sample_deltas. baseline d = ''wasm'' \<and> mode d = ''native''"
    by simp
  moreover from iff [of "''native''" "''python''"] no
  have "\<not> (\<exists>d \<in> set sample_deltas. baseline d = ''native'' \<and> mode d = ''python'')"
    by simp
  ultimately show ?thesis
    using h yes no dist by blast
qed

text \<open>
  C9. The two relative deltas of \<^verbatim>\<open>main\<close> raise no \<^verbatim>\<open>ZeroDivisionError\<close>: for all
  integers \<open>a\<close> and \<open>b\<close>, \<open>a = 0\<close> and negative ones included, the divisor
  \<^verbatim>\<open>max(1, float(a))\<close> is at least 1 and the results are \<open>(b - a) / max(1, a)\<close> and
  \<open>b / max(1, a)\<close>.
\<close>

theorem relative_deltas_defined:
  "delta_rel1 a b = Inr ((real_of_int b - real_of_int a) / max 1 (real_of_int a))
   \<and> delta_rel2 a b = Inr (real_of_int b / max 1 (real_of_int a))
   \<and> 1 \<le> py_max 1 (real_of_int a)"
  by (simp add: delta_rel1_def delta_rel2_def py_truediv_def py_max_def max_def)

end
